theory Spec2Isabelle
  imports Main
begin

section \<open>Python values\<close>

text \<open>
  The values that occur as elements of categorical data and as levels: \<open>None\<close>, booleans,
  integers, text, the float \<open>nan\<close> (the object \<open>numpy.nan\<close>), tuples, and \<open>PyDict\<close>, which
  stands for any unhashable object (a dict or a list).
\<close>

datatype pyval =
    PyNone
  | PyBool bool
  | PyInt int
  | PyStr string
  | PyNaN
  | PyTuple "pyval list"
  | PyDict

text \<open>
  Python dictionaries, sets and tuple comparison identify two keys when they are the same
  object or compare equal with equal hashes; \<open>True == 1\<close> and \<open>False == 0\<close> there, and
  \<open>numpy.nan\<close> matches itself by identity. \<open>key\<close> maps a value to the representative of
  its class, so two values are the same key exactly when their \<open>key\<close>s are equal.
\<close>

fun key :: "pyval \<Rightarrow> pyval" where
  "key (PyBool b) = PyInt (if b then 1 else 0)"
| "key (PyTuple vs) = PyTuple (map key vs)"
| "key v = v"

text \<open>\<open>hash(v)\<close> raises TypeError on an unhashable object and on a tuple that holds one.\<close>

fun hashable :: "pyval \<Rightarrow> bool" where
  "hashable PyDict = False"
| "hashable (PyTuple vs) = list_all hashable vs"
| "hashable v = True"

text \<open>\<open>tuple(a) == tuple(b)\<close>: same length, and the same key at every position.\<close>

definition tuple_eq :: "pyval list \<Rightarrow> pyval list \<Rightarrow> bool" where
  "tuple_eq a b = (map key a = map key b)"

text \<open>
  A Python \<open>set\<close>, as the list of its members in insertion order: \<open>add\<close> keeps the member
  already there, and two sets are equal when they hold the same keys.
\<close>

definition set_add :: "pyval \<Rightarrow> pyval list \<Rightarrow> pyval list" where
  "set_add v s = (if key v \<in> set (map key s) then s else s @ [v])"

definition set_eq :: "pyval list \<Rightarrow> pyval list \<Rightarrow> bool" where
  "set_eq a b = (set (map key a) = set (map key b))"

section \<open>Errors\<close>

text \<open>
  The source raises one exception class, \<open>PatsyError\<close>, at four kinds of places (the
  message tells them apart); the opaque \<open>origin\<close> token it forwards is left out.
  \<open>UncaughtKeyError\<close> is Python's own \<open>KeyError\<close> leaving \<open>categorical_to_int\<close>.
\<close>

datatype error =
    InvalidShape
  | HashError
  | LevelMismatch
  | UnknownLevel
  | UncaughtKeyError

section \<open>Data\<close>

text \<open>
  What the functions probe of a data object: whether it has \<open>ndim\<close>, whether it is
  iterable and not text, whether it has a boolean \<open>dtype\<close>, and the items it yields.
  \<^item> \<open>Scalar v\<close>: an object that is not iterable, or a text or binary string; no \<open>ndim\<close>,
    no \<open>dtype\<close>;
  \<^item> \<open>Seq xs\<close>: a list or tuple;
  \<^item> \<open>Array k xs\<close>: an ndarray of a non-boolean dtype with \<open>ndim = k + 1\<close>;
  \<^item> \<open>BoolArray k bs\<close>: an ndarray of boolean dtype with \<open>ndim = k + 1\<close>.
  Arrays of rank 0 and pandas Series (with their row labels) are not part of this model.
\<close>

datatype rawdata =
    Scalar pyval
  | Seq "pyval list"
  | Array nat "pyval list"
  | BoolArray nat "bool list"

fun has_bool_dtype :: "rawdata \<Rightarrow> bool" where
  "has_bool_dtype (BoolArray k bs) = True"
| "has_bool_dtype d = False"

fun items :: "rawdata \<Rightarrow> pyval list" where
  "items (Scalar v) = [v]"
| "items (Seq xs) = xs"
| "items (Array k xs) = xs"
| "items (BoolArray k bs) = map PyBool bs"

text \<open>\<open>data.astype(np.int_)\<close> on a boolean array.\<close>

fun astype_int :: "rawdata \<Rightarrow> int list" where
  "astype_int (BoolArray k bs) = map (\<lambda>b. if b then 1 else 0) bs"
| "astype_int d = []"

text \<open>\<open>_CategoricalBox\<close>: the data with an optional contrast and optional levels.\<close>

record ('d, 'c) CategoricalBox =
  box_data :: 'd
  box_contrast :: "'c option"
  box_levels :: "pyval list option"

text \<open>The first argument of \<open>C\<close>: a \<open>_CategoricalBox\<close>, or anything else.\<close>

datatype ('d, 'c) c_arg =
    IsBox "('d, 'c) CategoricalBox"
  | NotBox 'd

fun C :: "('d, 'c) c_arg \<Rightarrow> 'c option \<Rightarrow> pyval list option \<Rightarrow> ('d, 'c) CategoricalBox" where
  "C (IsBox b) contrast levels =
     \<lparr>box_data = box_data b,
      box_contrast = (case contrast of None \<Rightarrow> box_contrast b | Some c \<Rightarrow> Some c),
      box_levels = (case levels of None \<Rightarrow> box_levels b | Some l \<Rightarrow> Some l)\<rparr>"
| "C (NotBox d) contrast levels =
     \<lparr>box_data = d, box_contrast = contrast, box_levels = levels\<rparr>"

text \<open>
  A chunk handed to \<open>sniff\<close> or \<open>categorical_to_int\<close>:
  \<^item> \<open>Categorical lv labels c\<close>: a \<open>pandas.Categorical\<close> with levels \<open>lv\<close>, integer labels
    (\<open>-1\<close> for missing) and, when \<open>c = Some x\<close>, an attribute \<open>contrast\<close> of value \<open>x\<close>;
  \<open>have_pandas_categorical\<close> is taken to be true;
  \<^item> \<open>Boxed b\<close>: a \<open>_CategoricalBox\<close> around raw data;
  \<^item> \<open>Raw d\<close>: anything else (it has no attribute \<open>contrast\<close>).
\<close>

datatype 'c chunk =
    Categorical "pyval list" "int list" "'c option option"
  | Boxed "(rawdata, 'c) CategoricalBox"
  | Raw rawdata

section \<open>\<open>_categorical_shape_fix\<close>\<close>

text \<open>\<open>hasattr(data, "ndim")\<close> and the value of \<open>data.ndim\<close>.\<close>

fun ndim :: "rawdata \<Rightarrow> nat option" where
  "ndim (Scalar v) = None"
| "ndim (Seq xs) = None"
| "ndim (Array k xs) = Some (Suc k)"
| "ndim (BoolArray k bs) = Some (Suc k)"

text \<open>
  \<open>_categorical_shape_fix\<close>: more than one dimension is an error; an object that is not
  iterable, or is a text or binary string, becomes the list \<open>[data]\<close>.
\<close>

definition categorical_shape_fix :: "rawdata \<Rightarrow> error + rawdata" where
  "categorical_shape_fix d =
     (if (case ndim d of None \<Rightarrow> False | Some n \<Rightarrow> n > 1) then Inl InvalidShape
      else (case d of Scalar v \<Rightarrow> Inr (Seq [v]) | _ \<Rightarrow> Inr d))"

section \<open>\<open>CategoricalSniffer\<close>\<close>

record 'c CategoricalSniffer =
  sn_NA_action :: "pyval \<Rightarrow> bool"
  sn_contrast :: "'c option"
  sn_levels :: "pyval list option"
  sn_level_set :: "pyval list"

definition CategoricalSniffer_init :: "(pyval \<Rightarrow> bool) \<Rightarrow> 'c CategoricalSniffer" where
  "CategoricalSniffer_init na =
     \<lparr>sn_NA_action = na, sn_contrast = None, sn_levels = None, sn_level_set = []\<rparr>"

text \<open>
  \<open>levels_contrast\<close> returns the pair and the sniffer as it leaves it. \<open>srt\<close> stands for
  \<open>list(self._level_set)\<close> followed by \<open>sort(key=SortAnythingKey)\<close>; \<open>SortAnythingKey\<close>
  lives in \<open>patsy.util\<close> and is a parameter here.
\<close>

definition levels_contrast ::
  "(pyval list \<Rightarrow> pyval list) \<Rightarrow> 'c CategoricalSniffer
     \<Rightarrow> (pyval list \<times> 'c option) \<times> 'c CategoricalSniffer" where
  "levels_contrast srt s =
     (case sn_levels s of
        None \<Rightarrow>
          (let lv = srt (sn_level_set s)
           in ((lv, sn_contrast s), s\<lparr>sn_levels := Some lv\<rparr>))
      | Some lv \<Rightarrow> ((lv, sn_contrast s), s))"

text \<open>
  The scan of \<open>sniff\<close>: the level set after the loop, and the error if the loop raised
  (the set then holds what was added before the raise).
\<close>

fun sniff_items :: "(pyval \<Rightarrow> bool) \<Rightarrow> pyval list \<Rightarrow> pyval list \<Rightarrow> error option \<times> pyval list" where
  "sniff_items na [] ls = (None, ls)"
| "sniff_items na (v # vs) ls =
     (if na v then sniff_items na vs ls
      else if v = PyBool True \<or> v = PyBool False
        then sniff_items na vs (set_add (PyBool False) (set_add (PyBool True) ls))
      else if hashable v then sniff_items na vs (set_add v ls)
      else (Some HashError, ls))"

text \<open>\<open>sniff\<close> from the boolean fast path on, for data that is no box and no Categorical.\<close>

definition sniff_raw ::
  "'c CategoricalSniffer \<Rightarrow> rawdata \<Rightarrow> (error + bool) \<times> 'c CategoricalSniffer" where
  "sniff_raw s d =
     (if has_bool_dtype d
        then (Inr True, s\<lparr>sn_level_set := [PyBool True, PyBool False]\<rparr>)
      else
        (case categorical_shape_fix d of
           Inl e \<Rightarrow> (Inl e, s)
         | Inr d' \<Rightarrow>
             (case sniff_items (sn_NA_action s) (items d') (sn_level_set s) of
                (Some e, ls) \<Rightarrow> (Inl e, s\<lparr>sn_level_set := ls\<rparr>)
              | (None, ls) \<Rightarrow>
                  (Inr (set_eq ls [PyBool True, PyBool False]), s\<lparr>sn_level_set := ls\<rparr>))))"

text \<open>
  \<open>sniff\<close> returns what the call returns or raises, and the sniffer as the call leaves it
  (an exception does not undo the assignments made before it).
\<close>

fun sniff :: "'c CategoricalSniffer \<Rightarrow> 'c chunk \<Rightarrow> (error + bool) \<times> 'c CategoricalSniffer" where
  "sniff s (Categorical lv labels cattr) =
     (let s1 = (case cattr of None \<Rightarrow> s | Some c \<Rightarrow> s\<lparr>sn_contrast := c\<rparr>)
      in (Inr True, s1\<lparr>sn_levels := Some lv\<rparr>))"
| "sniff s (Boxed b) =
     (let s1 = s\<lparr>sn_contrast := box_contrast b\<rparr>
      in (case box_levels b of
            Some lv \<Rightarrow> (Inr True, s1\<lparr>sn_levels := Some lv\<rparr>)
          | None \<Rightarrow> sniff_raw s1 (box_data b)))"
| "sniff s (Raw d) = sniff_raw s d"

section \<open>\<open>categorical_to_int\<close>\<close>

text \<open>
  \<open>dict(zip(levels, range(len(levels))))\<close> as a map from keys to positions: the pairs are
  inserted in order, so a later duplicate overwrites the index of an earlier one.
\<close>

definition dict_of :: "pyval list \<Rightarrow> (pyval \<rightharpoonup> nat)" where
  "dict_of levels = map_of (rev (zip (map key levels) [0..<length levels]))"

text \<open>Building it raises TypeError, reported as \<open>HashError\<close>, when a level is unhashable.\<close>

definition level_to_int :: "pyval list \<Rightarrow> error + (pyval \<rightharpoonup> nat)" where
  "level_to_int levels =
     (if list_all hashable levels then Inr (dict_of levels) else Inl HashError)"

text \<open>The loop over the items: \<open>-1\<close> for a missing value, else the index of its level.\<close>

fun encode_items :: "(pyval \<Rightarrow> bool) \<Rightarrow> (pyval \<rightharpoonup> nat) \<Rightarrow> pyval list \<Rightarrow> error + int list" where
  "encode_items na m [] = Inr []"
| "encode_items na m (v # vs) =
     (if na v
        then (case encode_items na m vs of Inl e \<Rightarrow> Inl e | Inr out \<Rightarrow> Inr (- 1 # out))
      else if \<not> hashable v then Inl HashError
      else
        (case m (key v) of
           None \<Rightarrow> Inl UnknownLevel
         | Some i \<Rightarrow>
             (case encode_items na m vs of Inl e \<Rightarrow> Inl e | Inr out \<Rightarrow> Inr (int i # out))))"

text \<open>
  The boolean fast path: \<open>Some r\<close> when it ends the call with \<open>r\<close> (the cast, or the
  \<open>KeyError\<close> of \<open>level_to_int[False]\<close> or \<open>level_to_int[True]\<close>), \<open>None\<close> when the call
  goes on to the loop.
\<close>

definition fastpath :: "rawdata \<Rightarrow> (pyval \<rightharpoonup> nat) \<Rightarrow> (error + int list) option" where
  "fastpath d m =
     (if has_bool_dtype d then
        (case m (key (PyBool False)) of
           None \<Rightarrow> Some (Inl UncaughtKeyError)
         | Some i \<Rightarrow>
             (if i = 0 then
                (case m (key (PyBool True)) of
                   None \<Rightarrow> Some (Inl UncaughtKeyError)
                 | Some j \<Rightarrow> (if j = 1 then Some (Inr (astype_int d)) else None))
              else None))
      else None)"

text \<open>\<open>categorical_to_int\<close> from \<open>_categorical_shape_fix\<close> on.\<close>

definition encode_raw :: "rawdata \<Rightarrow> pyval list \<Rightarrow> (pyval \<Rightarrow> bool) \<Rightarrow> error + int list" where
  "encode_raw d levels na =
     (case categorical_shape_fix d of
        Inl e \<Rightarrow> Inl e
      | Inr d' \<Rightarrow>
          (case level_to_int levels of
             Inl e \<Rightarrow> Inl e
           | Inr m \<Rightarrow>
               (case fastpath d' m of
                  Some r \<Rightarrow> r
                | None \<Rightarrow> encode_items na m (items d'))))"

fun categorical_to_int :: "'c chunk \<Rightarrow> pyval list \<Rightarrow> (pyval \<Rightarrow> bool) \<Rightarrow> error + int list" where
  "categorical_to_int (Categorical lv labels cattr) levels na =
     (if \<not> tuple_eq lv levels then Inl LevelMismatch else Inr labels)"
| "categorical_to_int (Boxed b) levels na =
     (case box_levels b of
        Some lv \<Rightarrow>
          (if \<not> tuple_eq lv levels then Inl LevelMismatch
           else encode_raw (box_data b) levels na)
      | None \<Rightarrow> encode_raw (box_data b) levels na)"
| "categorical_to_int (Raw d) levels na = encode_raw d levels na"

text \<open>
  The general per-element path alone: \<open>categorical_to_int\<close> on raw data with the fast-path
  block (the source's lines 314 to 316) taken out.
\<close>

definition encode_general :: "rawdata \<Rightarrow> pyval list \<Rightarrow> (pyval \<Rightarrow> bool) \<Rightarrow> error + int list" where
  "encode_general d levels na =
     (case categorical_shape_fix d of
        Inl e \<Rightarrow> Inl e
      | Inr d' \<Rightarrow>
          (case level_to_int levels of
             Inl e \<Rightarrow> Inl e
           | Inr m \<Rightarrow> encode_items na m (items d')))"

section \<open>What a chunk exposes\<close>

text \<open>
  The three things \<open>sniff\<close> asks of a chunk before it scans: the attribute \<open>contrast\<close>
  when the chunk has one, the levels a \<open>pandas.Categorical\<close> or a box with explicit levels
  carries, and whether the data it would scan (the chunk itself, or what a box holds) has a
  boolean dtype.
\<close>

fun contrast_field :: "'c chunk \<Rightarrow> 'c option option" where
  "contrast_field (Categorical lv labels cattr) = cattr"
| "contrast_field (Boxed b) = Some (box_contrast b)"
| "contrast_field (Raw d) = None"

fun explicit_levels :: "'c chunk \<Rightarrow> pyval list option" where
  "explicit_levels (Categorical lv labels cattr) = Some lv"
| "explicit_levels (Boxed b) = box_levels b"
| "explicit_levels (Raw d) = None"




section \<open>Facts about the model\<close>

subsection \<open>The lookup built from the levels\<close>

lemma dict_of_Nil: "dict_of [] = Map.empty"
  by (simp add: dict_of_def)

lemma dict_of_snoc: "dict_of (ls @ [l]) = (dict_of ls)(key l \<mapsto> length ls)"
  by (rule ext) (simp add: dict_of_def)

lemma dict_of_Some:
  "dict_of ls k = Some i \<Longrightarrow>
     i < length ls \<and> key (ls ! i) = k \<and> (\<forall>j < length ls. key (ls ! j) = k \<longrightarrow> j \<le> i)"
proof (induction ls arbitrary: i rule: rev_induct)
  case Nil
  then show ?case by (simp add: dict_of_Nil)
next
  case (snoc l ls)
  show ?case
  proof (cases "key l = k")
    case True
    with snoc.prems have "i = length ls" by (simp add: dict_of_snoc)
    with True show ?thesis by (auto simp: nth_append)
  next
    case False
    with snoc.prems have "dict_of ls k = Some i" by (simp add: dict_of_snoc)
    from snoc.IH[OF this] False show ?thesis
      by (auto simp: nth_append less_Suc_eq)
  qed
qed

lemma dict_of_None: "(dict_of ls k = None) = (k \<notin> set (map key ls))"
  by (induction ls rule: rev_induct) (auto simp: dict_of_Nil dict_of_snoc)

subsection \<open>The loop of \<open>categorical_to_int\<close>\<close>

lemma encode_items_length: "encode_items na m xs = Inr out \<Longrightarrow> length out = length xs"
  by (induction xs arbitrary: out) (auto split: if_splits option.splits sum.splits)

lemma encode_items_nth:
  "encode_items na m xs = Inr out \<Longrightarrow> i < length xs \<Longrightarrow>
     (if na (xs ! i) then out ! i = - 1
      else hashable (xs ! i) \<and> 0 \<le> out ! i \<and> m (key (xs ! i)) = Some (nat (out ! i)))"
proof (induction xs arbitrary: out i)
  case Nil
  then show ?case by simp
next
  case (Cons v vs)
  then show ?case
    by (cases i) (auto split: if_splits option.splits sum.splits)
qed

lemma encode_items_find:
  "encode_items na m xs =
     (case find (\<lambda>v. \<not> na v \<and> (\<not> hashable v \<or> m (key v) = None)) xs of
        None \<Rightarrow> Inr (map (\<lambda>v. if na v then - 1 else int (the (m (key v)))) xs)
      | Some v \<Rightarrow> Inl (if hashable v then UnknownLevel else HashError))"
  by (induction xs) (auto split: option.splits)

subsection \<open>Shape fix and fast path\<close>

lemma shape_fix_Inr:
  "categorical_shape_fix d = Inr d' \<Longrightarrow>
     items d' = items d \<and> has_bool_dtype d' = has_bool_dtype d \<and> astype_int d' = astype_int d"
  by (cases d) (auto simp: categorical_shape_fix_def split: if_splits)

lemma shape_fix_cases:
  "categorical_shape_fix d = Inl InvalidShape \<or> (\<exists>d'. categorical_shape_fix d = Inr d')"
  by (cases d) (auto simp: categorical_shape_fix_def)

lemma fastpath_shape_fix:
  "categorical_shape_fix d = Inr d' \<Longrightarrow> fastpath d' m = fastpath d m"
  by (cases d) (auto simp: categorical_shape_fix_def fastpath_def split: if_splits)

lemma fastpath_not_bool: "\<not> has_bool_dtype d \<Longrightarrow> fastpath d m = None"
  by (simp add: fastpath_def)

lemma encode_raw_general:
  "categorical_shape_fix d = Inr d' \<Longrightarrow> level_to_int levels = Inr m \<Longrightarrow> fastpath d m = None \<Longrightarrow>
     encode_raw d levels na = encode_items na m (items d)"
  using shape_fix_Inr[of d d'] fastpath_shape_fix[of d d' m]
  by (simp add: encode_raw_def)

lemma fastpath_cases:
  "fastpath d m = None \<or> fastpath d m = Some (Inl UncaughtKeyError)
   \<or> (fastpath d m = Some (Inr (astype_int d)) \<and> has_bool_dtype d
        \<and> m (key (PyBool False)) = Some 0 \<and> m (key (PyBool True)) = Some 1)"
  by (auto simp: fastpath_def split: option.splits)

lemma encode_raw_fastpath_Some:
  "categorical_shape_fix d = Inr d' \<Longrightarrow> level_to_int levels = Inr m \<Longrightarrow> fastpath d m = Some r \<Longrightarrow>
     encode_raw d levels na = r"
  using fastpath_shape_fix[of d d' m] by (simp add: encode_raw_def)

lemma encode_items_no_KeyError: "encode_items na m xs \<noteq> Inl UncaughtKeyError"
  by (simp add: encode_items_find split: option.splits)

lemma encode_KeyError_iff:
  "(categorical_to_int (Raw d) levels na = Inl UncaughtKeyError) =
     (categorical_shape_fix d \<noteq> Inl InvalidShape \<and> list_all hashable levels
      \<and> fastpath d (dict_of levels) = Some (Inl UncaughtKeyError))"
proof (cases "categorical_shape_fix d = Inl InvalidShape")
  case True
  then show ?thesis by (simp add: encode_raw_def)
next
  case False
  with shape_fix_cases[of d] obtain d' where d': "categorical_shape_fix d = Inr d'" by auto
  show ?thesis
  proof (cases "list_all hashable levels")
    case False
    with d' show ?thesis by (simp add: encode_raw_def level_to_int_def)
  next
    case True
    then have l: "level_to_int levels = Inr (dict_of levels)" by (simp add: level_to_int_def)
    show ?thesis
    proof (cases "fastpath d (dict_of levels)")
      case None
      with encode_raw_general[OF d' l None, of na] encode_items_no_KeyError[of na "dict_of levels" "items d"]
      show ?thesis by simp
    next
      case (Some r)
      with encode_raw_fastpath_Some[OF d' l Some, of na] d' True show ?thesis by simp
    qed
  qed
qed

lemma fastpath_KeyError_iff:
  "(fastpath d m = Some (Inl UncaughtKeyError)) =
     (has_bool_dtype d \<and> (m (key (PyBool False)) = None
        \<or> (m (key (PyBool False)) = Some 0 \<and> m (key (PyBool True)) = None)))"
  by (auto simp: fastpath_def split: option.splits)

lemma shape_fix_rank: "ndim d = Some n \<Longrightarrow> 1 < n \<Longrightarrow> categorical_shape_fix d = Inl InvalidShape"
  by (simp add: categorical_shape_fix_def)

lemma encode_raw_Scalar: "encode_raw (Scalar v) levels na = encode_raw (Seq [v]) levels na"
  by (simp add: encode_raw_def categorical_shape_fix_def)

lemma sniff_raw_Scalar: "sniff_raw s (Scalar v) = sniff_raw s (Seq [v])"
  by (simp add: sniff_raw_def categorical_shape_fix_def)

lemma categorical_to_int_Boxed:
  "box_levels b = None \<or> (\<exists>lv. box_levels b = Some lv \<and> tuple_eq lv levels) \<Longrightarrow>
     categorical_to_int (Boxed b) levels na = categorical_to_int (Raw (box_data b)) levels na"
  by (auto split: option.splits)

lemma encode_raw_bool_fast:
  assumes "level_to_int levels = Inr m" "m (key (PyBool False)) = Some 0"
    "m (key (PyBool True)) = Some 1"
  shows "encode_raw (BoolArray k bs) levels na =
     (if k = 0 then Inr (map (\<lambda>b. if b then 1 else 0) bs) else Inl InvalidShape)"
  using assms by (simp add: encode_raw_def categorical_shape_fix_def fastpath_def)

lemma encode_items_bools:
  assumes "m (key (PyBool False)) = Some 0" and "m (key (PyBool True)) = Some 1"
  shows "list_all (\<lambda>b. \<not> na (PyBool b)) bs \<Longrightarrow>
     encode_items na m (map PyBool bs) = Inr (map (\<lambda>b. if b then 1 else 0) bs)"
  using assms by (induction bs) auto

lemma tuple_eq_iff:
  "tuple_eq a b = (length a = length b \<and> (\<forall>i < length a. key (a ! i) = key (b ! i)))"
  by (auto simp: tuple_eq_def list_eq_iff_nth_eq)

subsection \<open>The sniffer\<close>

lemma set_eq_iff:
  "set_eq a b = (list_all (\<lambda>x. key x \<in> set (map key b)) a \<and> list_all (\<lambda>x. key x \<in> set (map key a)) b)"
  by (auto simp: set_eq_def list_all_iff)











lemma levels_contrast_frozen:
  "sn_levels s = Some lv \<Longrightarrow> levels_contrast srt s = ((lv, sn_contrast s), s)"
  by (simp add: levels_contrast_def)

lemma levels_contrast_sets: "sn_levels (snd (levels_contrast srt s)) = Some (fst (fst (levels_contrast srt s)))"
  by (simp add: levels_contrast_def Let_def split: option.splits)

lemma levels_contrast_contrast: "sn_contrast (snd (levels_contrast srt s)) = snd (fst (levels_contrast srt s))"
  by (simp add: levels_contrast_def Let_def split: option.splits)

lemma sniff_raw_keeps: "sn_levels (snd (sniff_raw s d)) = sn_levels s \<and> sn_contrast (snd (sniff_raw s d)) = sn_contrast s"
  by (simp add: sniff_raw_def split: sum.splits prod.splits option.splits)

lemma sniff_levels:
  "sn_levels (snd (sniff s ch)) = (case explicit_levels ch of None \<Rightarrow> sn_levels s | Some lv \<Rightarrow> Some lv)"
  by (cases ch) (auto simp: Let_def sniff_raw_keeps split: option.splits)

lemma sniff_contrast:
  "sn_contrast (snd (sniff s ch)) = (case contrast_field ch of None \<Rightarrow> sn_contrast s | Some c \<Rightarrow> c)"
  by (cases ch) (auto simp: Let_def sniff_raw_keeps split: option.splits)

section \<open>The source's own tests, on the model\<close>

text \<open>
  The cases of \<open>test_categorical_to_int\<close> and \<open>test_CategoricalSniffer\<close> that the model
  covers, evaluated on it, with the results the tests assert.
\<close>

lemmas eval_defs = encode_raw_def categorical_shape_fix_def level_to_int_def dict_of_def
  fastpath_def tuple_eq_def sniff_raw_def set_add_def set_eq_iff CategoricalSniffer_init_def
  levels_contrast_def

lemma source_tests_categorical_to_int:
  "categorical_to_int (Raw (Seq [PyStr ''a'', PyStr ''b'', PyStr ''a''])) [PyStr ''a'', PyStr ''b'']
     (\<lambda>v. False) = Inr [0, 1, 0]"
  "categorical_to_int (Raw (Array 0 [PyInt 0, PyInt 1, PyInt 2])) [PyInt 1, PyInt 2, PyInt 0]
     (\<lambda>v. False) = Inr [2, 0, 1]"
  "categorical_to_int (Raw (Seq [PyStr ''a'', PyStr ''b'', PyStr ''a'']))
     [PyStr ''a'', PyStr ''d'', PyStr ''z'', PyStr ''b''] (\<lambda>v. False) = Inr [0, 3, 0]"
  "categorical_to_int (Raw (Seq [PyTuple [PyStr ''a'', PyInt 1], PyTuple [PyStr ''b'', PyInt 0]]))
     [PyTuple [PyStr ''a'', PyInt 1], PyTuple [PyStr ''b'', PyInt 0]] (\<lambda>v. False) = Inr [0, 1]"
  "categorical_to_int (Raw (Seq [PyStr ''a'', PyStr ''b'', PyStr ''a''])) [PyStr ''a'', PyStr ''c'']
     (\<lambda>v. False) = Inl UnknownLevel"
  "categorical_to_int (Boxed (C (NotBox (Seq [PyStr ''a'', PyStr ''b'', PyStr ''a''])) None None))
     [PyStr ''b'', PyStr ''a''] (\<lambda>v. False) = Inr [1, 0, 1]"
  "categorical_to_int
     (Boxed (C (NotBox (Seq [PyStr ''a'', PyStr ''b''])) None (Some [PyStr ''a'', PyStr ''b''])))
     [PyStr ''b'', PyStr ''a''] (\<lambda>v. False) = Inl LevelMismatch"
  "categorical_to_int (Raw (Scalar (PyStr ''b''))) [PyStr ''a'', PyStr ''b''] (\<lambda>v. False) = Inr [1]"
  "categorical_to_int (Raw (Scalar (PyBool True))) [PyBool False, PyBool True] (\<lambda>v. False) = Inr [1]"
  "categorical_to_int (Raw (Array 1 [PyStr ''a'', PyStr ''b'', PyStr ''b'', PyStr ''a'']))
     [PyStr ''a'', PyStr ''b''] (\<lambda>v. False) = Inl InvalidShape"
  "categorical_to_int (Raw (Seq [PyStr ''a'', PyStr ''b''])) [PyStr ''a'', PyStr ''b'', PyDict]
     (\<lambda>v. False) = Inl HashError"
  "categorical_to_int (Raw (Seq [PyStr ''a'', PyStr ''b'', PyDict])) [PyStr ''a'', PyStr ''b'']
     (\<lambda>v. False) = Inl HashError"
  "categorical_to_int (Raw (Seq [PyStr ''b'', PyNone, PyNaN, PyStr ''a'']))
     [PyStr ''a'', PyStr ''b'', PyNone] (\<lambda>v. v = PyNaN) = Inr [1, 2, - 1, 0]"
  "categorical_to_int (Categorical [PyStr ''a'', PyStr ''b''] [1, 0, - 1] None)
     [PyStr ''a'', PyStr ''b''] (\<lambda>v. v = PyNone) = Inr [1, 0, - 1]"
  "categorical_to_int (Categorical [PyStr ''a'', PyStr ''b''] [1, 0] None)
     [PyStr ''a'', PyStr ''c''] (\<lambda>v. False) = Inl LevelMismatch"
  by (simp_all add: eval_defs)

lemma source_tests_sniff:
  "sniff (CategoricalSniffer_init (\<lambda>v. False)) (Boxed (C (NotBox (Seq [PyInt 1, PyInt 2])) None None))
     = (Inr False, \<lparr>sn_NA_action = \<lambda>v. False, sn_contrast = None, sn_levels = None,
                    sn_level_set = [PyInt 1, PyInt 2]\<rparr>)"
  "sniff \<lparr>sn_NA_action = \<lambda>v. False, sn_contrast = None, sn_levels = None,
          sn_level_set = [PyInt 1, PyInt 2]\<rparr>
     (Boxed (C (NotBox (Seq [PyInt 3, PyInt 2])) None None))
     = (Inr False, \<lparr>sn_NA_action = \<lambda>v. False, sn_contrast = None, sn_levels = None,
                    sn_level_set = [PyInt 1, PyInt 2, PyInt 3]\<rparr>)"
  "fst (levels_contrast srt (snd (sniff (CategoricalSniffer_init (\<lambda>v. False))
     (Boxed (C (NotBox (Seq [PyInt 1, PyInt 2])) None (Some [PyInt 3, PyInt 2, PyInt 1]))))))
     = ([PyInt 3, PyInt 2, PyInt 1], None)"
  "sniff (CategoricalSniffer_init (\<lambda>v. v = PyNone \<or> v = PyNaN))
     (Boxed (C (NotBox (Seq [PyBool True, PyNaN, PyNone])) None None))
     = (Inr True, \<lparr>sn_NA_action = \<lambda>v. v = PyNone \<or> v = PyNaN, sn_contrast = None,
                   sn_levels = None, sn_level_set = [PyBool True, PyBool False]\<rparr>)"
  "fst (sniff \<lparr>sn_NA_action = \<lambda>v. False, sn_contrast = None, sn_levels = None,
          sn_level_set = [PyInt 10, PyInt 20]\<rparr> (Boxed (C (NotBox (Seq [PyBool False])) None None)))
     = Inr False"
  "fst (sniff (CategoricalSniffer_init (\<lambda>v. False)) (Raw (BoolArray 0 [True, False]))) = Inr True"
  "sn_contrast (snd (sniff (CategoricalSniffer_init (\<lambda>v. False))
     (Boxed (C (NotBox (Seq [PyInt 10, PyInt 20])) (Some foo) None)))) = Some foo"
  "fst (sniff (CategoricalSniffer_init (\<lambda>v. False)) (Raw (Scalar (PyStr ''b'')))) = Inr False"
  "fst (sniff (CategoricalSniffer_init (\<lambda>v. False)) (Raw (Seq [PyDict]))) = Inl HashError"
  "fst (sniff (CategoricalSniffer_init (\<lambda>v. False)) (Raw (Array 1 [PyStr ''b'']))) = Inl InvalidShape"
  by (simp_all add: eval_defs)

section \<open>The claims\<close>

text \<open>
  C1 (round trip). The claim: whenever every element of the data is classified non-missing
  and occurs in the levels, and all values are hashable, \<open>categorical_to_int\<close> succeeds and
  \<open>levels[codes[i]] == data[i]\<close>. The code does not succeed on a boolean array whose levels
  do not hold \<open>False\<close>: on \<open>numpy.asarray([True])\<close> with levels \<open>(True,)\<close> every element
  occurs in the levels and everything is hashable, yet the fast path evaluates
  \<open>level_to_int[False]\<close> and the \<open>KeyError\<close> leaves the function, whatever the NA policy.
\<close>

theorem bool_array_levels_without_False:
  "list_all hashable [PyBool True]
   \<and> list_all (\<lambda>v. key v \<in> set (map key [PyBool True])) (items (BoolArray 0 [True]))
   \<and> categorical_to_int (Raw (BoolArray 0 [True])) [PyBool True] na = Inl UncaughtKeyError"
  by (simp add: encode_raw_def categorical_shape_fix_def level_to_int_def dict_of_def fastpath_def)

text \<open>
  Round trip, where it holds. For data of at most one dimension whose items are all
  non-missing, hashable and present in the levels, and hashable levels:
  \<open>categorical_to_int\<close> succeeds and \<open>levels[codes[i]]\<close> is the same key as \<open>data[i]\<close>,
  unless the boolean fast path raises \<open>KeyError\<close>.
\<close>

theorem roundtrip:
  assumes "categorical_shape_fix d \<noteq> Inl InvalidShape"
    and "list_all hashable levels"
    and "list_all (\<lambda>v. \<not> na v \<and> hashable v \<and> key v \<in> set (map key levels)) (items d)"
    and "fastpath d (dict_of levels) \<noteq> Some (Inl UncaughtKeyError)"
  shows "\<exists>out. categorical_to_int (Raw d) levels na = Inr out
           \<and> length out = length (items d)
           \<and> (\<forall>i < length (items d). 0 \<le> out ! i \<and> nat (out ! i) < length levels
                  \<and> key (levels ! nat (out ! i)) = key (items d ! i))"
proof -
  let ?m = "dict_of levels"
  from assms(1) shape_fix_cases[of d] obtain d' where d': "categorical_shape_fix d = Inr d'"
    by auto
  from assms(2) have l: "level_to_int levels = Inr ?m" by (simp add: level_to_int_def)
  from fastpath_cases[of d ?m] assms(4)
  consider (general) "fastpath d ?m = None"
    | (fast) "fastpath d ?m = Some (Inr (astype_int d))" "has_bool_dtype d"
        "?m (key (PyBool False)) = Some 0" "?m (key (PyBool True)) = Some 1"
    by auto
  then show ?thesis
  proof cases
    case general
    have "find (\<lambda>v. \<not> na v \<and> (\<not> hashable v \<or> ?m (key v) = None)) (items d) = None"
      using assms(3) by (auto simp: find_None_iff list_all_iff dict_of_None)
    then have "\<exists>out. encode_items na ?m (items d) = Inr out"
      by (simp add: encode_items_find)
    then obtain out where e: "encode_items na ?m (items d) = Inr out" ..
    have c: "categorical_to_int (Raw d) levels na = Inr out"
      using encode_raw_general[OF d' l general, of na] e by simp
    have len: "length out = length (items d)"
      using e by (rule encode_items_length)
    have "0 \<le> out ! i \<and> nat (out ! i) < length levels
        \<and> key (levels ! nat (out ! i)) = key (items d ! i)" if i: "i < length (items d)" for i
    proof -
      from assms(3) i have "\<not> na (items d ! i)" by (simp add: list_all_length)
      with encode_items_nth[OF e i]
      have p: "0 \<le> out ! i" and q: "?m (key (items d ! i)) = Some (nat (out ! i))"
        by simp_all
      from dict_of_Some[OF q] p show ?thesis by simp
    qed
    with c len show ?thesis by blast
  next
    case fast
    then obtain k bs where d: "d = BoolArray k bs" by (cases d) auto
    with d' have k: "k = 0" by (simp add: categorical_shape_fix_def split: if_splits)
    have c: "categorical_to_int (Raw d) levels na = Inr (map (\<lambda>b. if b then 1 else 0) bs)"
      using encode_raw_bool_fast[OF l fast(3,4), of k bs na] d k by simp
    from dict_of_Some[OF fast(3)] dict_of_Some[OF fast(4)]
    have z: "0 < length levels" "key (levels ! 0) = key (PyBool False)"
      "1 < length levels" "key (levels ! 1) = key (PyBool True)"
      by auto
    let ?out = "map (\<lambda>b. if b then 1 else (0::int)) bs"
    have "0 \<le> ?out ! i \<and> nat (?out ! i) < length levels
        \<and> key (levels ! nat (?out ! i)) = key (items d ! i)"
      if i: "i < length (items d)" for i
    proof (cases "bs ! i")
      case True
      with i d z show ?thesis by simp
    next
      case False
      with i d z show ?thesis by simp
    qed
    moreover have "length ?out = length (items d)" using d by simp
    ultimately show ?thesis using c by blast
  qed
qed

theorem roundtrip_witness:
  "categorical_shape_fix (Seq [PyInt 0, PyBool True, PyInt 2]) \<noteq> Inl InvalidShape
   \<and> list_all hashable [PyInt 1, PyInt 2, PyInt 0]
   \<and> fastpath (Seq [PyInt 0, PyBool True, PyInt 2]) (dict_of [PyInt 1, PyInt 2, PyInt 0])
       \<noteq> Some (Inl UncaughtKeyError)
   \<and> categorical_to_int (Raw (Seq [PyInt 0, PyBool True, PyInt 2])) [PyInt 1, PyInt 2, PyInt 0]
       (\<lambda>v. False) = Inr [2, 0, 1]"
proof -
  have h1: "categorical_shape_fix (Seq [PyInt 0, PyBool True, PyInt 2]) \<noteq> Inl InvalidShape"
    by (simp add: categorical_shape_fix_def)
  have h2: "list_all hashable [PyInt 1, PyInt 2, PyInt 0]" by simp
  have h3: "list_all (\<lambda>v. \<not> (\<lambda>v. False) v \<and> hashable v \<and> key v \<in> set (map key [PyInt 1, PyInt 2, PyInt 0]))
      (items (Seq [PyInt 0, PyBool True, PyInt 2]))" by simp
  have h4: "fastpath (Seq [PyInt 0, PyBool True, PyInt 2]) (dict_of [PyInt 1, PyInt 2, PyInt 0])
       \<noteq> Some (Inl UncaughtKeyError)" by (simp add: fastpath_def)
  from roundtrip[OF h1 h2 h3 h4] h1 h2 h4 show ?thesis
    by (simp add: encode_raw_def categorical_shape_fix_def level_to_int_def dict_of_def fastpath_def)
qed

text \<open>
  C2 (codes of the general path). Let \<open>m\<close> be the lookup built from the levels, and let
  the fast path not apply to the data. When \<open>categorical_to_int\<close> returns codes, there is one
  code per item; the code of an item the policy classifies as missing is \<open>-1\<close>; the code of
  any other item is a position of the levels that holds that item's value, and no later
  position holds it (so it is the one position when the levels are distinct). In
  particular \<open>["b", None, NaN, "a"]\<close> against \<open>("a", "b")\<close>, with \<open>None\<close> and \<open>NaN\<close>
  missing, gives \<open>[1, -1, -1, 0]\<close>.
\<close>

theorem general_path_codes:
  "(level_to_int levels = Inr m \<and> fastpath d m = None
      \<and> categorical_to_int (Raw d) levels na = Inr out \<longrightarrow>
      length out = length (items d) \<and>
      (\<forall>i < length (items d).
         if na (items d ! i) then out ! i = - 1
         else 0 \<le> out ! i \<and> nat (out ! i) < length levels
              \<and> key (levels ! nat (out ! i)) = key (items d ! i)
              \<and> (\<forall>j < length levels. key (levels ! j) = key (items d ! i) \<longrightarrow> j \<le> nat (out ! i))))
   \<and> categorical_to_int (Raw (Seq [PyStr ''b'', PyNone, PyNaN, PyStr ''a'']))
        [PyStr ''a'', PyStr ''b''] (\<lambda>v. v = PyNone \<or> v = PyNaN) = Inr [1, - 1, - 1, 0]"
proof (intro conjI impI)
  assume a: "level_to_int levels = Inr m \<and> fastpath d m = None
      \<and> categorical_to_int (Raw d) levels na = Inr out"
  then have m: "m = dict_of levels"
    by (auto simp: level_to_int_def split: if_splits)
  from a shape_fix_cases[of d] obtain d' where d': "categorical_shape_fix d = Inr d'"
    by (auto simp: encode_raw_def)
  from a have "encode_raw d levels na = Inr out" by simp
  with a encode_raw_general[OF d', of levels m na]
  have e: "encode_items na m (items d) = Inr out" by simp
  from e show "length out = length (items d)"
    by (rule encode_items_length)
  show "\<forall>i < length (items d).
         if na (items d ! i) then out ! i = - 1
         else 0 \<le> out ! i \<and> nat (out ! i) < length levels
              \<and> key (levels ! nat (out ! i)) = key (items d ! i)
              \<and> (\<forall>j < length levels. key (levels ! j) = key (items d ! i) \<longrightarrow> j \<le> nat (out ! i))"
  proof (intro allI impI)
    fix i assume i: "i < length (items d)"
    show "if na (items d ! i) then out ! i = - 1
         else 0 \<le> out ! i \<and> nat (out ! i) < length levels
              \<and> key (levels ! nat (out ! i)) = key (items d ! i)
              \<and> (\<forall>j < length levels. key (levels ! j) = key (items d ! i) \<longrightarrow> j \<le> nat (out ! i))"
    proof (cases "na (items d ! i)")
      case True
      with encode_items_nth[OF e i] show ?thesis by simp
    next
      case False
      with encode_items_nth[OF e i]
      have "0 \<le> out ! i" and "dict_of levels (key (items d ! i)) = Some (nat (out ! i))"
        by (simp_all add: m)
      with dict_of_Some[of levels "key (items d ! i)" "nat (out ! i)"] False
      show ?thesis by simp
    qed
  qed
next
  show "categorical_to_int (Raw (Seq [PyStr ''b'', PyNone, PyNaN, PyStr ''a'']))
        [PyStr ''a'', PyStr ''b''] (\<lambda>v. v = PyNone \<or> v = PyNaN) = Inr [1, - 1, - 1, 0]"
    by (simp add: encode_raw_def categorical_shape_fix_def level_to_int_def dict_of_def fastpath_def)
qed

theorem general_path_codes_witness:
  "level_to_int [PyStr ''a'', PyStr ''b''] = Inr (dict_of [PyStr ''a'', PyStr ''b''])
   \<and> fastpath (Seq [PyStr ''b'', PyNone]) (dict_of [PyStr ''a'', PyStr ''b'']) = None
   \<and> categorical_to_int (Raw (Seq [PyStr ''b'', PyNone])) [PyStr ''a'', PyStr ''b'']
         (\<lambda>v. v = PyNone) = Inr [1, - 1]
   \<and> length [1, - 1 :: int] = length (items (Seq [PyStr ''b'', PyNone]))
   \<and> key ([PyStr ''a'', PyStr ''b''] ! nat ([1, - 1] ! 0)) = key (items (Seq [PyStr ''b'', PyNone]) ! 0)"
proof -
  have h: "level_to_int [PyStr ''a'', PyStr ''b''] = Inr (dict_of [PyStr ''a'', PyStr ''b''])
     \<and> fastpath (Seq [PyStr ''b'', PyNone]) (dict_of [PyStr ''a'', PyStr ''b'']) = None
     \<and> categorical_to_int (Raw (Seq [PyStr ''b'', PyNone])) [PyStr ''a'', PyStr ''b'']
         (\<lambda>v. v = PyNone) = Inr [1, - 1]"
    by (simp add: encode_raw_def categorical_shape_fix_def level_to_int_def dict_of_def fastpath_def)
  from general_path_codes[THEN conjunct1, rule_format, OF h] h
  show ?thesis by simp
qed

text \<open>
  C3 (errors of the encoder). As stated the claim fails: it asks for \<open>UnknownLevel\<close> for
  every unknown element and for \<open>HashError\<close> for every unhashable one, but the loop stops at
  the first element that fails. On \<open>["q", {}]\<close> against \<open>("a",)\<close> the data holds an unhashable
  element and the call fails with \<open>UnknownLevel\<close>, not \<open>HashError\<close>.
\<close>

theorem encode_errors_counterexample:
  "\<not> hashable PyDict
   \<and> PyDict \<in> set (items (Seq [PyStr ''q'', PyDict]))
   \<and> categorical_to_int (Raw (Seq [PyStr ''q'', PyDict])) [PyStr ''a''] (\<lambda>v. False)
       = Inl UnknownLevel"
  by (simp add: encode_raw_def categorical_shape_fix_def level_to_int_def dict_of_def fastpath_def)

text \<open>
  C3, amended. Leave out the calls that end in the uncaught \<open>KeyError\<close> of the boolean
  fast path (a boolean array whose levels lack \<open>False\<close>, or hold \<open>False\<close> at position 0 and
  lack \<open>True\<close>; lemmas \<open>encode_KeyError_iff\<close> and \<open>fastpath_KeyError_iff\<close>). For every other
  plain input, boolean arrays included: more than one dimension fails with \<open>InvalidShape\<close>;
  otherwise an unhashable entry in the levels fails with \<open>HashError\<close>; otherwise the items
  are taken in order, those the policy classifies as missing are passed over whatever they
  are, and the first other item that is unhashable or absent from the levels decides the
  failure, \<open>HashError\<close> when it is unhashable and \<open>UnknownLevel\<close> when it is hashable and
  absent; with no such item the call succeeds (with the cast when the fast path applies,
  else with \<open>-1\<close> for a missing item and the position of its level for any other).
\<close>

theorem encode_first_failure:
  assumes "categorical_to_int (Raw d) levels na \<noteq> Inl UncaughtKeyError"
  shows "categorical_to_int (Raw d) levels na =
     (if categorical_shape_fix d = Inl InvalidShape then Inl InvalidShape
      else if \<not> list_all hashable levels then Inl HashError
      else
        (case find (\<lambda>v. \<not> na v \<and> (\<not> hashable v \<or> key v \<notin> set (map key levels))) (items d) of
           Some v \<Rightarrow> Inl (if hashable v then UnknownLevel else HashError)
         | None \<Rightarrow>
             Inr (if fastpath d (dict_of levels) = None
                  then map (\<lambda>v. if na v then - 1 else int (the (dict_of levels (key v)))) (items d)
                  else astype_int d)))"
proof (cases "categorical_shape_fix d = Inl InvalidShape")
  case True
  then show ?thesis by (simp add: encode_raw_def)
next
  case shape: False
  with shape_fix_cases[of d] obtain d' where d': "categorical_shape_fix d = Inr d'" by auto
  show ?thesis
  proof (cases "list_all hashable levels")
    case False
    with d' show ?thesis by (simp add: encode_raw_def level_to_int_def)
  next
    case True
    let ?m = "dict_of levels"
    from True have l: "level_to_int levels = Inr ?m" by (simp add: level_to_int_def)
    from fastpath_cases[of d ?m]
    consider (general) "fastpath d ?m = None"
      | (keyerror) "fastpath d ?m = Some (Inl UncaughtKeyError)"
      | (cast) "fastpath d ?m = Some (Inr (astype_int d))" "has_bool_dtype d"
          "?m (key (PyBool False)) = Some 0" "?m (key (PyBool True)) = Some 1"
      by auto
    then show ?thesis
    proof cases
      case general
      have "categorical_to_int (Raw d) levels na = encode_items na ?m (items d)"
        using encode_raw_general[OF d' l general] by simp
      with True shape general show ?thesis
        by (simp add: encode_items_find dict_of_None)
    next
      case keyerror
      from encode_raw_fastpath_Some[OF d' l keyerror, of na] assms show ?thesis by simp
    next
      case cast
      then obtain k bs where d: "d = BoolArray k bs" by (cases d) auto
      have p: "key (PyBool b) \<in> set (map key levels)" for b
        using cast(3,4) dict_of_None[of levels "key (PyBool b)"] by (cases b) auto
      have "find (\<lambda>v. \<not> na v \<and> (\<not> hashable v \<or> key v \<notin> set (map key levels))) (items d) = None"
        unfolding find_None_iff using d p by auto
      moreover have "categorical_to_int (Raw d) levels na = Inr (astype_int d)"
        using encode_raw_fastpath_Some[OF d' l cast(1), of na] by simp
      ultimately show ?thesis using True shape cast(1) by simp
    qed
  qed
qed

theorem encode_first_failure_witness:
  "categorical_to_int (Raw (BoolArray 0 [False, True])) [PyStr ''a'', PyBool False] (\<lambda>v. False)
       \<noteq> Inl UncaughtKeyError
   \<and> categorical_to_int (Raw (BoolArray 0 [False, True])) [PyStr ''a'', PyBool False] (\<lambda>v. False)
       = Inl UnknownLevel
   \<and> categorical_to_int (Raw (Seq [PyNone, PyDict, PyStr ''q''])) [PyStr ''a''] (\<lambda>v. v = PyNone)
       = Inl HashError"
proof -
  have h1: "categorical_to_int (Raw (BoolArray 0 [False, True])) [PyStr ''a'', PyBool False]
      (\<lambda>v. False) \<noteq> Inl UncaughtKeyError"
    by (simp add: encode_raw_def categorical_shape_fix_def level_to_int_def dict_of_def fastpath_def)
  have h2: "categorical_to_int (Raw (Seq [PyNone, PyDict, PyStr ''q''])) [PyStr ''a'']
      (\<lambda>v. v = PyNone) \<noteq> Inl UncaughtKeyError"
    by (simp add: encode_raw_def categorical_shape_fix_def level_to_int_def dict_of_def fastpath_def)
  from encode_first_failure[OF h1] encode_first_failure[OF h2] h1 show ?thesis
    by (simp add: categorical_shape_fix_def dict_of_def)
qed

text \<open>
  C4 (fast path against general path). As stated the claim fails: the fast path never asks
  the NA policy, the general path does. With a policy that classifies \<open>True\<close> as missing,
  the boolean array \<open>[True]\<close> against \<open>(False, True)\<close> gives \<open>[1]\<close> on the fast path and
  \<open>[-1]\<close> on the general path.
\<close>

theorem fastpath_vs_general_counterexample:
  "categorical_to_int (Raw (BoolArray 0 [True])) [PyBool False, PyBool True]
       (\<lambda>v. v = PyBool True) = Inr [1]
   \<and> encode_general (BoolArray 0 [True]) [PyBool False, PyBool True]
       (\<lambda>v. v = PyBool True) = Inr [- 1]"
  by (simp add: encode_raw_def encode_general_def categorical_shape_fix_def level_to_int_def
      dict_of_def fastpath_def)

text \<open>
  C4, amended. For every boolean array, the levels \<open>(False, True)\<close> and every NA policy
  that classifies none of the array's values as missing, \<open>categorical_to_int\<close> (which takes
  the fast path) returns what the general per-element path returns.
\<close>

theorem fastpath_equals_general:
  assumes "list_all (\<lambda>b. \<not> na (PyBool b)) bs"
  shows "categorical_to_int (Raw (BoolArray k bs)) [PyBool False, PyBool True] na =
         encode_general (BoolArray k bs) [PyBool False, PyBool True] na"
proof -
  let ?lv = "[PyBool False, PyBool True]"
  have h1: "level_to_int ?lv = Inr (dict_of ?lv)" by (simp add: level_to_int_def)
  have h2: "dict_of ?lv (key (PyBool False)) = Some 0" by (simp add: dict_of_def)
  have h3: "dict_of ?lv (key (PyBool True)) = Some 1" by (simp add: dict_of_def)
  have "encode_general (BoolArray k bs) ?lv na =
      (if k = 0 then Inr (map (\<lambda>b. if b then 1 else 0) bs) else Inl InvalidShape)"
    using encode_items_bools[OF h2 h3 assms] h1
    by (simp add: encode_general_def categorical_shape_fix_def)
  with encode_raw_bool_fast[OF h1 h2 h3] show ?thesis by simp
qed

theorem fastpath_equals_general_witness:
  "list_all (\<lambda>b. \<not> (\<lambda>v. v = PyNone \<or> v = PyNaN) (PyBool b)) [True, False]
   \<and> categorical_to_int (Raw (BoolArray 0 [True, False])) [PyBool False, PyBool True]
        (\<lambda>v. v = PyNone \<or> v = PyNaN) = Inr [1, 0]
   \<and> encode_general (BoolArray 0 [True, False]) [PyBool False, PyBool True]
        (\<lambda>v. v = PyNone \<or> v = PyNaN) = Inr [1, 0]"
proof -
  have h: "list_all (\<lambda>b. \<not> (\<lambda>v. v = PyNone \<or> v = PyNaN) (PyBool b)) [True, False]" by simp
  have e: "encode_general (BoolArray 0 [True, False]) [PyBool False, PyBool True]
        (\<lambda>v. v = PyNone \<or> v = PyNaN) = Inr [1, 0]"
    by (simp add: encode_general_def categorical_shape_fix_def level_to_int_def dict_of_def)
  from fastpath_equals_general[OF h, of 0] e h show ?thesis by simp
qed

text \<open>
  C5 (level mismatch). A \<open>pandas.Categorical\<close>, or a box with explicit levels, whose levels
  are not equal as tuples (same values in the same order) to the expected levels fails with
  \<open>LevelMismatch\<close>; \<open>("a", "b")\<close> against \<open>("b", "a")\<close> fails although the sets are equal;
  and a \<open>pandas.Categorical\<close> whose levels match gets its own labels back, whatever the
  policy.
\<close>

theorem level_mismatch:
  "(\<not> tuple_eq lv levels \<longrightarrow>
      categorical_to_int (Categorical lv labels cattr) levels na = Inl LevelMismatch)
   \<and> (\<not> tuple_eq lv levels \<longrightarrow>
      categorical_to_int (Boxed \<lparr>box_data = d, box_contrast = c, box_levels = Some lv\<rparr>) levels na
        = Inl LevelMismatch)
   \<and> (tuple_eq lv levels \<longrightarrow>
      categorical_to_int (Categorical lv labels cattr) levels na = Inr labels)
   \<and> \<not> tuple_eq [PyStr ''a'', PyStr ''b''] [PyStr ''b'', PyStr ''a'']
   \<and> set [PyStr ''a'', PyStr ''b''] = set [PyStr ''b'', PyStr ''a'']
   \<and> categorical_to_int (Categorical [PyStr ''a'', PyStr ''b''] labels cattr)
        [PyStr ''b'', PyStr ''a''] na = Inl LevelMismatch
   \<and> categorical_to_int
        (Boxed \<lparr>box_data = d, box_contrast = c, box_levels = Some [PyStr ''a'', PyStr ''b'']\<rparr>)
        [PyStr ''b'', PyStr ''a''] na = Inl LevelMismatch"
  by (auto simp: tuple_eq_def)

theorem level_mismatch_witness:
  "\<not> tuple_eq [PyInt 1, PyInt 2] [PyInt 1, PyInt 3]
   \<and> categorical_to_int (Categorical [PyInt 1, PyInt 2] [1, 0, - 1] None) [PyInt 1, PyInt 3]
        (\<lambda>v. False) = Inl LevelMismatch
   \<and> categorical_to_int
        (Boxed \<lparr>box_data = Seq [PyInt 1], box_contrast = None, box_levels = Some [PyInt 1, PyInt 2]\<rparr>)
        [PyInt 1, PyInt 3] (\<lambda>v. False) = Inl LevelMismatch
   \<and> tuple_eq [PyBool True, PyStr ''a''] [PyInt 1, PyStr ''a'']
   \<and> categorical_to_int (Categorical [PyBool True, PyStr ''a''] [1, 0, - 1] None)
        [PyInt 1, PyStr ''a''] (\<lambda>v. False) = Inr [1, 0, - 1]"
proof -
  have h1: "\<not> tuple_eq [PyInt 1, PyInt 2] [PyInt 1, PyInt 3]" by (simp add: tuple_eq_def)
  have h2: "tuple_eq [PyBool True, PyStr ''a''] [PyInt 1, PyStr ''a'']" by (simp add: tuple_eq_def)
  note a = level_mismatch[of "[PyInt 1, PyInt 2]" "[PyInt 1, PyInt 3]" "[1, 0, - 1]" None "\<lambda>v. False"
      "Seq [PyInt 1]" None]
  note b = level_mismatch[of "[PyBool True, PyStr ''a'']" "[PyInt 1, PyStr ''a'']" "[1, 0, - 1]" None
      "\<lambda>v. False"]
  from a b h1 h2 show ?thesis by simp
qed




text \<open>
  C7 (after \<open>levels_contrast\<close>). As stated the claim fails: \<open>sniff\<close> has no check for a
  finalized sniffer. After \<open>levels_contrast\<close> returned \<open>((), None)\<close>, sniffing a box with
  levels \<open>[1]\<close> and contrast \<open>7\<close> makes the next \<open>levels_contrast\<close> return \<open>((1,), 7)\<close>.
\<close>

theorem sniff_after_finalize_counterexample:
  "fst (levels_contrast (\<lambda>xs. xs) (CategoricalSniffer_init (\<lambda>v. False) :: nat CategoricalSniffer)) = ([], None)
   \<and> fst (levels_contrast (\<lambda>xs. xs)
        (snd (sniff (snd (levels_contrast (\<lambda>xs. xs) (CategoricalSniffer_init (\<lambda>v. False) :: nat CategoricalSniffer)))
           (Boxed \<lparr>box_data = Seq [], box_contrast = Some (7 :: nat), box_levels = Some [PyInt 1]\<rparr>))))
       = ([PyInt 1], Some 7)"
  by (simp add: levels_contrast_def CategoricalSniffer_init_def)

text \<open>
  C7, amended. Once \<open>levels_contrast\<close> has been called, calling it again returns the same
  pair and leaves the sniffer as it is. A further \<open>sniff\<close> changes what \<open>levels_contrast\<close>
  returns in two ways only: a chunk with an attribute \<open>contrast\<close> replaces the contrast by
  its value, and a \<open>pandas.Categorical\<close> or a box with explicit levels replaces the levels
  by its own. So a chunk that is neither (plain data) leaves the pair unchanged, also when
  \<open>sniff\<close> raises; and the levels stay set after any \<open>sniff\<close>.
\<close>

theorem finalized_result:
  "levels_contrast srt (snd (levels_contrast srt s)) =
     (fst (levels_contrast srt s), snd (levels_contrast srt s))
   \<and> fst (levels_contrast srt (snd (sniff (snd (levels_contrast srt s)) ch))) =
       (case explicit_levels ch of
          None \<Rightarrow> fst (fst (levels_contrast srt s))
        | Some lv \<Rightarrow> lv,
        case contrast_field ch of
          None \<Rightarrow> snd (fst (levels_contrast srt s))
        | Some c \<Rightarrow> c)
   \<and> fst (levels_contrast srt (snd (sniff (snd (levels_contrast srt s)) (Raw d)))) =
       fst (levels_contrast srt s)
   \<and> sn_levels (snd (sniff (snd (levels_contrast srt s)) ch)) \<noteq> None"
proof -
  let ?s1 = "snd (levels_contrast srt s)"
  let ?r = "fst (levels_contrast srt s)"
  have l1: "sn_levels ?s1 = Some (fst ?r)" by (rule levels_contrast_sets)
  have k1: "sn_contrast ?s1 = snd ?r" by (rule levels_contrast_contrast)
  have a: "levels_contrast srt ?s1 = (?r, ?s1)"
    using levels_contrast_frozen[OF l1, of srt] k1 by simp
  have l2: "sn_levels (snd (sniff ?s1 ch)) =
      Some (case explicit_levels ch of None \<Rightarrow> fst ?r | Some lv \<Rightarrow> lv)"
    by (simp add: sniff_levels l1 split: option.splits)
  have k2: "sn_contrast (snd (sniff ?s1 ch)) =
      (case contrast_field ch of None \<Rightarrow> snd ?r | Some c \<Rightarrow> c)"
    by (simp add: sniff_contrast k1 split: option.splits)
  have b: "fst (levels_contrast srt (snd (sniff ?s1 ch))) =
       (case explicit_levels ch of None \<Rightarrow> fst ?r | Some lv \<Rightarrow> lv,
        case contrast_field ch of None \<Rightarrow> snd ?r | Some c \<Rightarrow> c)"
    using levels_contrast_frozen[OF l2, of srt] k2 by simp
  have l3: "sn_levels (snd (sniff ?s1 (Raw d))) = Some (fst ?r)"
    by (simp add: sniff_raw_keeps l1)
  have k3: "sn_contrast (snd (sniff ?s1 (Raw d))) = snd ?r"
    by (simp add: sniff_raw_keeps k1)
  have c: "fst (levels_contrast srt (snd (sniff ?s1 (Raw d)))) = ?r"
    using levels_contrast_frozen[OF l3, of srt] k3 by simp
  from a b c l2 show ?thesis by simp
qed

theorem finalized_result_witness:
  "fst (levels_contrast (\<lambda>xs. xs)
     (snd (sniff (snd (levels_contrast (\<lambda>xs. xs)
        \<lparr>sn_NA_action = \<lambda>v. False, sn_contrast = Some (3::nat), sn_levels = None,
         sn_level_set = [PyInt 1, PyInt 2]\<rparr>))
        (Raw (Seq [PyInt 5])))))
   = ([PyInt 1, PyInt 2], Some 3)"
proof -
  let ?s = "\<lparr>sn_NA_action = \<lambda>v. False, sn_contrast = Some (3::nat), sn_levels = None,
         sn_level_set = [PyInt 1, PyInt 2]\<rparr>"
  have e: "fst (levels_contrast (\<lambda>xs. xs) ?s) = ([PyInt 1, PyInt 2], Some 3)"
    by (simp add: levels_contrast_def Let_def)
  note f = finalized_result[THEN conjunct2, THEN conjunct2, THEN conjunct1,
      of "\<lambda>xs. xs" ?s "Seq [PyInt 5]"]
  from f e show ?thesis by (rule trans)
qed

text \<open>
  C8 (shape). As stated the claim fails for \<open>sniff\<close>: its boolean fast path returns before
  the shape is looked at, so a boolean array with two dimensions is answered \<open>True\<close>.
\<close>

theorem sniff_rank2_bool_counterexample:
  "ndim (BoolArray 1 [True, False]) = Some 2
   \<and> fst (sniff (CategoricalSniffer_init (\<lambda>v. False) :: nat CategoricalSniffer) (Raw (BoolArray 1 [True, False]))) = Inr True"
  by (simp add: sniff_raw_def)

text \<open>
  C8, amended. \<open>categorical_to_int\<close> fails with \<open>InvalidShape\<close> on any data with more than
  one dimension, plain or in a box whose levels are absent or equal to the expected ones.
  \<open>sniff\<close> fails with \<open>InvalidShape\<close> on any data with more than one dimension that has no
  boolean dtype, plain or in a box without explicit levels. Both treat a bare scalar as the
  list holding it; and the scalar \<open>"a"\<close> against \<open>("a", "b")\<close> gives \<open>[0]\<close> when the policy
  does not classify \<open>"a"\<close> as missing.
\<close>

theorem shape_rules:
  "(ndim d = Some n \<and> 1 < n \<longrightarrow> categorical_to_int (Raw d) levels na = Inl InvalidShape)
   \<and> (ndim (box_data bx) = Some n \<and> 1 < n
        \<and> (box_levels bx = None \<or> (\<exists>lv. box_levels bx = Some lv \<and> tuple_eq lv levels)) \<longrightarrow>
        categorical_to_int (Boxed bx) levels na = Inl InvalidShape)
   \<and> (ndim d = Some n \<and> 1 < n \<and> \<not> has_bool_dtype d \<longrightarrow> sniff s (Raw d) = (Inl InvalidShape, s))
   \<and> (ndim (box_data bx) = Some n \<and> 1 < n \<and> \<not> has_bool_dtype (box_data bx) \<and> box_levels bx = None \<longrightarrow>
        sniff s (Boxed bx) = (Inl InvalidShape, s\<lparr>sn_contrast := box_contrast bx\<rparr>))
   \<and> sniff s (Raw (Scalar v)) = sniff s (Raw (Seq [v]))
   \<and> categorical_to_int (Raw (Scalar v)) levels na = categorical_to_int (Raw (Seq [v])) levels na
   \<and> (\<not> na (PyStr ''a'') \<longrightarrow>
        categorical_to_int (Raw (Scalar (PyStr ''a''))) [PyStr ''a'', PyStr ''b''] na = Inr [0])"
proof -
  have e: "ndim x = Some n \<and> 1 < n \<longrightarrow> encode_raw x levels na = Inl InvalidShape" for x
    by (auto simp: encode_raw_def shape_fix_rank)
  have c1: "ndim d = Some n \<and> 1 < n \<longrightarrow> categorical_to_int (Raw d) levels na = Inl InvalidShape"
    using e[of d] by simp
  have c2: "ndim (box_data bx) = Some n \<and> 1 < n
        \<and> (box_levels bx = None \<or> (\<exists>lv. box_levels bx = Some lv \<and> tuple_eq lv levels)) \<longrightarrow>
        categorical_to_int (Boxed bx) levels na = Inl InvalidShape"
    using e[of "box_data bx"] by auto
  have c3: "ndim d = Some n \<and> 1 < n \<and> \<not> has_bool_dtype d \<longrightarrow> sniff s (Raw d) = (Inl InvalidShape, s)"
    by (auto simp: sniff_raw_def shape_fix_rank)
  have c4: "ndim (box_data bx) = Some n \<and> 1 < n \<and> \<not> has_bool_dtype (box_data bx) \<and> box_levels bx = None \<longrightarrow>
        sniff s (Boxed bx) = (Inl InvalidShape, s\<lparr>sn_contrast := box_contrast bx\<rparr>)"
    by (auto simp: Let_def sniff_raw_def shape_fix_rank)
  have c5: "sniff s (Raw (Scalar v)) = sniff s (Raw (Seq [v]))"
    by (simp add: sniff_raw_Scalar)
  have c6: "categorical_to_int (Raw (Scalar v)) levels na = categorical_to_int (Raw (Seq [v])) levels na"
    by (simp add: encode_raw_Scalar)
  have c7: "\<not> na (PyStr ''a'') \<longrightarrow>
        categorical_to_int (Raw (Scalar (PyStr ''a''))) [PyStr ''a'', PyStr ''b''] na = Inr [0]"
    by (simp add: encode_raw_def categorical_shape_fix_def level_to_int_def dict_of_def fastpath_def)
  from c1 c2 c3 c4 c5 c6 c7 show ?thesis by blast
qed

theorem shape_rules_witness:
  "ndim (Array 1 [PyStr ''b'']) = Some 2
   \<and> categorical_to_int (Raw (Array 1 [PyStr ''b''])) [PyStr ''a'', PyStr ''b''] (\<lambda>v. False)
       = Inl InvalidShape
   \<and> fst (sniff (CategoricalSniffer_init (\<lambda>v. False) :: nat CategoricalSniffer) (Raw (Array 1 [PyStr ''b''])))
       = Inl InvalidShape
   \<and> categorical_to_int (Raw (Scalar (PyStr ''a''))) [PyStr ''a'', PyStr ''b''] (\<lambda>v. False) = Inr [0]"
proof -
  have h1: "ndim (Array 1 [PyStr ''b'']) = Some 2 \<and> 1 < (2::nat)" by simp
  have h2: "ndim (Array 1 [PyStr ''b'']) = Some 2 \<and> 1 < (2::nat)
      \<and> \<not> has_bool_dtype (Array 1 [PyStr ''b''])" by simp
  have h3: "\<not> (\<lambda>v. False) (PyStr ''a'')" by simp
  note a = shape_rules[THEN conjunct1, rule_format, OF h1]
  note b = shape_rules[where s = "CategoricalSniffer_init (\<lambda>v. False) :: nat CategoricalSniffer",
      THEN conjunct2, THEN conjunct2, THEN conjunct1, rule_format, OF h2]
  note c = shape_rules[THEN conjunct2, THEN conjunct2, THEN conjunct2, THEN conjunct2,
      THEN conjunct2, THEN conjunct2, rule_format, of "\<lambda>v. False", OF h3]
  from a b c h1 show ?thesis by simp
qed

text \<open>
  C9. \<open>C\<close> on data that is no box makes the box of the data and the caller's contrast and
  levels. \<open>C\<close> on a box unwraps it first and keeps, for contrast and for levels
  independently, the caller's value when it is not \<open>None\<close> and the inner box's value
  otherwise. So boxing a box again with no overrides gives the same box, and overriding one
  field leaves the other as the inner box has it (the cases of \<open>test_C\<close>).
\<close>

theorem C_box_override:
  "C (IsBox b) contrast levels =
     \<lparr>box_data = box_data b,
      box_contrast = (if contrast = None then box_contrast b else contrast),
      box_levels = (if levels = None then box_levels b else levels)\<rparr>
   \<and> C (NotBox d) contrast levels =
       \<lparr>box_data = d, box_contrast = contrast, box_levels = levels\<rparr>
   \<and> C (IsBox b) None None = b
   \<and> C (IsBox (C x c l)) None None = C x c l
   \<and> box_levels (C (IsBox b) (Some c') None) = box_levels b
   \<and> box_contrast (C (IsBox b) (Some c') None) = Some c'
   \<and> box_contrast (C (IsBox b) None (Some l')) = box_contrast b
   \<and> box_levels (C (IsBox b) None (Some l')) = Some l'
   \<and> box_data (C (IsBox b) contrast levels) = box_data b
   \<and> C (IsBox (C (NotBox d) (Some c0) (Some l0))) None (Some l') =
       \<lparr>box_data = d, box_contrast = Some c0, box_levels = Some l'\<rparr>
   \<and> C (IsBox (C (NotBox d) (Some c0) (Some l0))) (Some c') None =
       \<lparr>box_data = d, box_contrast = Some c', box_levels = Some l0\<rparr>"
  by (cases contrast; cases levels) simp_all

text \<open>
  C10 (the fast path ignores the policy). For a boolean array and levels whose lookup maps
  \<open>False\<close> to 0 and \<open>True\<close> to 1, the result of \<open>categorical_to_int\<close> is the cast of the
  array (or \<open>InvalidShape\<close> when the array has more than one dimension), the same under
  every NA policy; the codes are 0s and 1s and never \<open>-1\<close>.
\<close>

theorem bool_fastpath_ignores_policy:
  assumes "level_to_int levels = Inr m" and "m (key (PyBool False)) = Some 0"
    and "m (key (PyBool True)) = Some 1"
  shows "categorical_to_int (Raw (BoolArray k bs)) levels na =
           (if k = 0 then Inr (map (\<lambda>b. if b then 1 else 0) bs) else Inl InvalidShape)
         \<and> categorical_to_int (Raw (BoolArray k bs)) levels na =
             categorical_to_int (Raw (BoolArray k bs)) levels na'
         \<and> (\<forall>out. categorical_to_int (Raw (BoolArray k bs)) levels na = Inr out \<longrightarrow>
               length out = length bs \<and> set out \<subseteq> {0, 1} \<and> - 1 \<notin> set out)"
  using encode_raw_bool_fast[OF assms] by (auto split: if_splits)

theorem bool_fastpath_ignores_policy_witness:
  "level_to_int [PyBool False, PyBool True] = Inr (dict_of [PyBool False, PyBool True])
   \<and> dict_of [PyBool False, PyBool True] (key (PyBool False)) = Some 0
   \<and> dict_of [PyBool False, PyBool True] (key (PyBool True)) = Some 1
   \<and> categorical_to_int (Raw (BoolArray 0 [True, False])) [PyBool False, PyBool True]
        (\<lambda>v. v = PyBool True) = Inr [1, 0]"
proof -
  have h1: "level_to_int [PyBool False, PyBool True] = Inr (dict_of [PyBool False, PyBool True])"
    by (simp add: level_to_int_def)
  have h2: "dict_of [PyBool False, PyBool True] (key (PyBool False)) = Some 0"
    by (simp add: dict_of_def)
  have h3: "dict_of [PyBool False, PyBool True] (key (PyBool True)) = Some 1"
    by (simp add: dict_of_def)
  from bool_fastpath_ignores_policy[OF h1 h2 h3, of 0 "[True, False]" "\<lambda>v. v = PyBool True"] h1 h2 h3
  show ?thesis by simp
qed

end
